theory Spec2Isabelle
  imports Complex_Main "HOL-Library.Multiset"
begin

section \<open>Matrix factorisation tutorial: the data iterator, max_id, RMSE and train\<close>

text \<open>
  The notebook is Python 2 (\<^verbatim>\<open>file(fname)\<close>, integer \<^verbatim>\<open>/\<close>). Its own code is
  the classes \<^verbatim>\<open>Batch\<close> and \<^verbatim>\<open>DataIter\<close> and the functions \<^verbatim>\<open>get_data\<close>,
  \<^verbatim>\<open>max_id\<close>, \<^verbatim>\<open>RMSE\<close> and \<^verbatim>\<open>train\<close>. Conventions of the embedding:
  \<^item> an exception is a value \<open>Inl e\<close> of \<open>py_error + 'a\<close>;
  \<^item> a file is the list of its lines, as \<^verbatim>\<open>for line in file(fname)\<close> reads it;
  \<^item> Python integers are \<open>int\<close>; \<^verbatim>\<open>a / b\<close> on integers is floor division, which is
    \<open>div\<close> on \<open>int\<close>, and raises on \<open>b = 0\<close>;
  \<^item> the builtins \<^verbatim>\<open>int\<close> and \<^verbatim>\<open>float\<close>, applied to a string, are parameters
    \<open>pyint\<close> and \<open>pyfloat\<close> of the functions that call them: \<open>None\<close> stands for
    the ValueError they raise on an invalid literal. What is proved holds for whatever
    grammar they accept;
  \<^item> the floating-point operations of \<^verbatim>\<open>RMSE\<close> are parameters too, the record
    \<open>arith\<close> over a type \<open>'f\<close> of float values: what is proved holds for whatever
    format, rounding, infinities and NaN they implement;
  \<^item> an \<^verbatim>\<open>mx.nd.array\<close> built from a Python list is that list.
\<close>

datatype py_error = ValueError | IndexError | ZeroDivisionError | IOError

subsection \<open>Python list and string primitives\<close>

text \<open>\<^verbatim>\<open>xs[j]\<close>: a negative index counts from the end, anything out of range raises.\<close>

definition getitem :: "'a list \<Rightarrow> int \<Rightarrow> py_error + 'a" where
  "getitem xs j =
     (let n = int (length xs); j' = (if j < 0 then n + j else j)
      in if 0 \<le> j' \<and> j' < n then Inr (xs ! nat j') else Inl IndexError)"

text \<open>\<^verbatim>\<open>range(m)\<close> of Python 2: the list \<open>0, ..., m - 1\<close>, empty when \<open>m \<le> 0\<close>.\<close>

definition range :: "int \<Rightarrow> int list" where
  "range m = map int [0..<nat m]"

text \<open>The characters \<^verbatim>\<open>str.strip()\<close> removes: space, tab, newline, vertical tab, form
  feed, carriage return.\<close>

definition isspace :: "char \<Rightarrow> bool" where
  "isspace c \<longleftrightarrow> c \<in> set [CHR '' '', CHR 0x09, CHR 0x0A, CHR 0x0B, CHR 0x0C, CHR 0x0D]"

definition strip :: "string \<Rightarrow> string" where
  "strip s = rev (dropWhile isspace (rev (dropWhile isspace s)))"

text \<open>\<^verbatim>\<open>s.split(sep)\<close> for a one-character separator: every occurrence of the separator
  ends a field, so the result has one field more than there are separators.\<close>

fun split_from :: "char \<Rightarrow> string \<Rightarrow> string \<Rightarrow> string list" where
  "split_from sep cur [] = [cur]"
| "split_from sep cur (c # cs) =
     (if c = sep then cur # split_from sep [] cs else split_from sep (cur @ [c]) cs)"

definition split :: "string \<Rightarrow> char \<Rightarrow> string list" where
  "split s sep = split_from sep [] s"

abbreviation TAB :: char where
  "TAB \<equiv> CHR 0x09"

subsection \<open>Batch\<close>

text \<open>
  \<^verbatim>\<open>Batch.__init__\<close> stores its four arguments. \<open>data\<close> holds the user and the item
  array, \<open>label\<close> the score array; the shape of a one-dimensional array is the
  one-element tuple of its length.
\<close>

record 'r Batch =
  data :: "int list list"
  label :: "'r list list"
  data_names :: "string list"
  label_names :: "string list"

definition shape :: "'a list \<Rightarrow> int list" where
  "shape x = [int (length x)]"

definition Batch_provide_data :: "'r Batch \<Rightarrow> (string \<times> int list) list" where
  "Batch_provide_data b = map (\<lambda>(n, x). (n, shape x)) (zip (data_names b) (data b))"

definition Batch_provide_label :: "'r Batch \<Rightarrow> (string \<times> int list) list" where
  "Batch_provide_label b = map (\<lambda>(n, x). (n, shape x)) (zip (label_names b) (label b))"

subsection \<open>DataIter\<close>

text \<open>A rating record is the tuple \<^verbatim>\<open>(int(tks[0]), int(tks[1]), float(tks[2]))\<close>.\<close>

type_synonym 'r RatingRecord = "int \<times> int \<times> 'r"

record 'r DataIter =
  batch_size :: int
  records :: "'r RatingRecord list"
  provide_data :: "(string \<times> int list) list"
  provide_label :: "(string \<times> int list) list"

text \<open>The field \<open>records\<close> is \<^verbatim>\<open>self.data\<close> of the source (the name \<open>data\<close> is the
  field of \<open>Batch\<close>).\<close>

text \<open>The fields of a line: \<^verbatim>\<open>line.strip().split('\t')\<close>.\<close>

definition tokens :: "string \<Rightarrow> string list" where
  "tokens line = split (strip line) TAB"

text \<open>
  The loop of \<^verbatim>\<open>DataIter.__init__\<close> over the lines of the file. A line without exactly
  four fields is passed over by \<^verbatim>\<open>continue\<close>; on a line with four fields the three
  conversions run in order and the first that fails raises ValueError out of the
  constructor; otherwise the tuple is appended to \<^verbatim>\<open>self.data\<close>.
\<close>

fun read_records ::
  "(string \<Rightarrow> int option) \<Rightarrow> (string \<Rightarrow> 'r option) \<Rightarrow> string list \<Rightarrow> 'r RatingRecord list
     \<Rightarrow> py_error + 'r RatingRecord list" where
  "read_records pyint pyfloat [] acc = Inr acc"
| "read_records pyint pyfloat (line # rest) acc =
     (let tks = tokens line in
      if length tks \<noteq> 4 then read_records pyint pyfloat rest acc
      else (case pyint (tks ! 0) of
              None \<Rightarrow> Inl ValueError
            | Some u \<Rightarrow>
               (case pyint (tks ! 1) of
                  None \<Rightarrow> Inl ValueError
                | Some i \<Rightarrow>
                   (case pyfloat (tks ! 2) of
                      None \<Rightarrow> Inl ValueError
                    | Some s \<Rightarrow> read_records pyint pyfloat rest (acc @ [(u, i, s)])))))"

definition DataIter_init ::
  "(string \<Rightarrow> int option) \<Rightarrow> (string \<Rightarrow> 'r option) \<Rightarrow> string list \<Rightarrow> int
     \<Rightarrow> py_error + 'r DataIter" where
  "DataIter_init pyint pyfloat lines bs =
     (case read_records pyint pyfloat lines [] of
        Inl e \<Rightarrow> Inl e
      | Inr recs \<Rightarrow>
          Inr \<lparr> batch_size = bs, records = recs,
                provide_data = [(''user'', [bs]), (''item'', [bs])],
                provide_label = [(''score'', [bs])] \<rparr>)"

text \<open>
  The inner loop of \<^verbatim>\<open>__iter__\<close>: for each \<open>i\<close> of \<^verbatim>\<open>range(self.batch_size)\<close> it
  reads \<^verbatim>\<open>self.data[k * self.batch_size + i]\<close> and appends its three components to
  \<open>users\<close>, \<open>items\<close> and \<open>scores\<close>.
\<close>

fun fill_batch ::
  "'r DataIter \<Rightarrow> int \<Rightarrow> int list \<Rightarrow> int list \<times> int list \<times> 'r list
     \<Rightarrow> py_error + int list \<times> int list \<times> 'r list" where
  "fill_batch self k [] (users, items, scores) = Inr (users, items, scores)"
| "fill_batch self k (i # is) (users, items, scores) =
     (let j = k * batch_size self + i in
      case getitem (records self) j of
        Inl e \<Rightarrow> Inl e
      | Inr (user, item, score) \<Rightarrow>
          fill_batch self k is (users @ [user], items @ [item], scores @ [score]))"

text \<open>
  The outer loop of \<^verbatim>\<open>__iter__\<close>, one yielded batch for each \<open>k\<close>. The generator is
  modelled by the list of the batches it yields; an exception ends it.
\<close>

fun yield_batches :: "'r DataIter \<Rightarrow> int list \<Rightarrow> py_error + 'r Batch list" where
  "yield_batches self [] = Inr []"
| "yield_batches self (k # ks) =
     (case fill_batch self k (range (batch_size self)) ([], [], []) of
        Inl e \<Rightarrow> Inl e
      | Inr (users, items, scores) \<Rightarrow>
          (let data_batch = \<lparr> data = [users, items], label = [scores],
                               data_names = [''user'', ''item''], label_names = [''score''] \<rparr>
           in case yield_batches self ks of
                Inl e \<Rightarrow> Inl e
              | Inr bs \<Rightarrow> Inr (data_batch # bs)))"

definition DataIter_iter :: "'r DataIter \<Rightarrow> py_error + 'r Batch list" where
  "DataIter_iter self =
     (if batch_size self = 0 then Inl ZeroDivisionError
      else yield_batches self (range (int (length (records self)) div batch_size self)))"

text \<open>
  \<^verbatim>\<open>random.shuffle(x)\<close> is the standard library's (CPython 2.7, \<^verbatim>\<open>random.py\<close>):
  \<^verbatim>\<open>
  for i in reversed(xrange(1, len(x))):
      j = int(random() * (i+1))
      x[i], x[j] = x[j], x[i]
  \<close>
  The generator behind \<^verbatim>\<open>random()\<close> is a parameter: a function from its state \<open>'g\<close>
  to the number drawn and the next state. The library documents the number to lie in
  the interval from 0 (included) to 1 (excluded). \<^verbatim>\<open>int\<close> of a float truncates
  towards zero.
\<close>

definition setitem :: "'a list \<Rightarrow> int \<Rightarrow> 'a \<Rightarrow> py_error + 'a list" where
  "setitem xs j v =
     (let n = int (length xs); j' = (if j < 0 then n + j else j)
      in if 0 \<le> j' \<and> j' < n then Inr (xs[nat j' := v]) else Inl IndexError)"

definition int_of_float :: "real \<Rightarrow> int" where
  "int_of_float r = (if 0 \<le> r then \<lfloor>r\<rfloor> else \<lceil>r\<rceil>)"

fun shuffle_loop ::
  "('g \<Rightarrow> real \<times> 'g) \<Rightarrow> int list \<Rightarrow> 'a list \<times> 'g \<Rightarrow> py_error + 'a list \<times> 'g" where
  "shuffle_loop random [] (x, g) = Inr (x, g)"
| "shuffle_loop random (i # is) (x, g) =
     (let (r, g') = random g; j = int_of_float (r * (of_int i + 1)) in
      case getitem x j of
        Inl e \<Rightarrow> Inl e
      | Inr xj \<Rightarrow>
         (case getitem x i of
            Inl e \<Rightarrow> Inl e
          | Inr xi \<Rightarrow>
             (case setitem x i xj of
                Inl e \<Rightarrow> Inl e
              | Inr x' \<Rightarrow>
                 (case setitem x' j xi of
                    Inl e \<Rightarrow> Inl e
                  | Inr x'' \<Rightarrow> shuffle_loop random is (x'', g')))))"

definition shuffle :: "('g \<Rightarrow> real \<times> 'g) \<Rightarrow> 'a list \<Rightarrow> 'g \<Rightarrow> py_error + 'a list \<times> 'g" where
  "shuffle random x g = shuffle_loop random (rev (map int [1..<length x])) (x, g)"

text \<open>\<^verbatim>\<open>DataIter.reset\<close>: \<^verbatim>\<open>random.shuffle(self.data)\<close>, in place. The state of the
  generator is threaded through.\<close>

definition DataIter_reset ::
  "('g \<Rightarrow> real \<times> 'g) \<Rightarrow> 'r DataIter \<Rightarrow> 'g \<Rightarrow> py_error + 'r DataIter \<times> 'g" where
  "DataIter_reset random self g =
     (case shuffle random (records self) g of
        Inl e \<Rightarrow> Inl e
      | Inr (x, g') \<Rightarrow> Inr (self\<lparr>records := x\<rparr>, g'))"

subsection \<open>get_data and max_id\<close>

text \<open>The file system is a map from a path to the lines of the file; \<^verbatim>\<open>file(fname)\<close>
  raises IOError on a path that is not there.\<close>

definition DataIter_open ::
  "(string \<rightharpoonup> string list) \<Rightarrow> (string \<Rightarrow> int option) \<Rightarrow> (string \<Rightarrow> 'r option) \<Rightarrow> string \<Rightarrow> int
     \<Rightarrow> py_error + 'r DataIter" where
  "DataIter_open fs pyint pyfloat fname bs =
     (case fs fname of
        None \<Rightarrow> Inl IOError
      | Some lines \<Rightarrow> DataIter_init pyint pyfloat lines bs)"

definition get_data ::
  "(string \<rightharpoonup> string list) \<Rightarrow> (string \<Rightarrow> int option) \<Rightarrow> (string \<Rightarrow> 'r option) \<Rightarrow> int
     \<Rightarrow> py_error + 'r DataIter \<times> 'r DataIter" where
  "get_data fs pyint pyfloat bs =
     (case DataIter_open fs pyint pyfloat ''./ml-100k/u1.base'' bs of
        Inl e \<Rightarrow> Inl e
      | Inr train_iter \<Rightarrow>
         (case DataIter_open fs pyint pyfloat ''./ml-100k/u1.test'' bs of
            Inl e \<Rightarrow> Inl e
          | Inr test_iter \<Rightarrow> Inr (train_iter, test_iter)))"

text \<open>The loop of \<^verbatim>\<open>max_id\<close>, with the running maxima \<open>mu\<close> and \<open>mi\<close>.\<close>

fun max_id_loop ::
  "(string \<Rightarrow> int option) \<Rightarrow> string list \<Rightarrow> int \<times> int \<Rightarrow> py_error + int \<times> int" where
  "max_id_loop pyint [] (mu, mi) = Inr (mu, mi)"
| "max_id_loop pyint (line # rest) (mu, mi) =
     (let tks = tokens line in
      if length tks \<noteq> 4 then max_id_loop pyint rest (mu, mi)
      else (case pyint (tks ! 0) of
              None \<Rightarrow> Inl ValueError
            | Some u \<Rightarrow>
               (case pyint (tks ! 1) of
                  None \<Rightarrow> Inl ValueError
                | Some i \<Rightarrow> max_id_loop pyint rest (max mu u, max mi i))))"

definition max_id :: "(string \<Rightarrow> int option) \<Rightarrow> string list \<Rightarrow> py_error + int \<times> int" where
  "max_id pyint lines =
     (case max_id_loop pyint lines (0, 0) of
        Inl e \<Rightarrow> Inl e
      | Inr (mu, mi) \<Rightarrow> Inr (mu + 1, mi + 1))"

subsection \<open>RMSE\<close>

text \<open>
  The float operations \<^verbatim>\<open>RMSE\<close> uses: the constants \<open>0.0\<close> and \<open>1.0\<close>, \<open>+\<close>,
  \<open>-\<close>, \<open>*\<close>, the division \<open>/\<close>, which may raise (ZeroDivisionError), and
  \<^verbatim>\<open>math.sqrt\<close>, which may raise (ValueError).
\<close>

record 'f arith =
  f_zero :: 'f
  f_one :: 'f
  f_add :: "'f \<Rightarrow> 'f \<Rightarrow> 'f"
  f_sub :: "'f \<Rightarrow> 'f \<Rightarrow> 'f"
  f_mul :: "'f \<Rightarrow> 'f \<Rightarrow> 'f"
  f_div :: "'f \<Rightarrow> 'f \<Rightarrow> py_error + 'f"
  f_sqrt :: "'f \<Rightarrow> py_error + 'f"

text \<open>
  \<open>lab\<close> is the argument \<^verbatim>\<open>label\<close> (the name \<open>label\<close> is the field of
  \<open>Batch\<close>) and \<open>pred\<close> the sequence \<^verbatim>\<open>pred.flatten()\<close>. The loop runs over
  \<^verbatim>\<open>range(len(label))\<close>, reads \<^verbatim>\<open>label[i]\<close> and \<^verbatim>\<open>pred[i]\<close>, adds the product of
  their difference with itself to \<open>ret\<close> and \<open>1.0\<close> to the float counter \<open>n\<close>.
  After the loop comes \<^verbatim>\<open>math.sqrt(ret / n)\<close>.
\<close>

fun RMSE_loop ::
  "'f arith \<Rightarrow> 'f list \<Rightarrow> 'f list \<Rightarrow> int list \<Rightarrow> 'f \<times> 'f \<Rightarrow> py_error + 'f \<times> 'f" where
  "RMSE_loop fl lab pred [] (ret, n) = Inr (ret, n)"
| "RMSE_loop fl lab pred (i # is) (ret, n) =
     (case getitem lab i of
        Inl e \<Rightarrow> Inl e
      | Inr l \<Rightarrow>
         (case getitem pred i of
            Inl e \<Rightarrow> Inl e
          | Inr p \<Rightarrow>
              RMSE_loop fl lab pred is
                (f_add fl ret (f_mul fl (f_sub fl l p) (f_sub fl l p)), f_add fl n (f_one fl))))"

definition RMSE :: "'f arith \<Rightarrow> 'f list \<Rightarrow> 'f list \<Rightarrow> py_error + 'f" where
  "RMSE fl lab pred =
     (case RMSE_loop fl lab pred (range (int (length lab))) (f_zero fl, f_zero fl) of
        Inl e \<Rightarrow> Inl e
      | Inr (ret, n) \<Rightarrow>
          (case f_div fl ret n of
             Inl e \<Rightarrow> Inl e
           | Inr q \<Rightarrow> f_sqrt fl q))"

subsection \<open>train\<close>

text \<open>
  The framework calls of \<^verbatim>\<open>train\<close> are parameters: \<open>FeedForward\<close> builds the model
  from the symbol, the number of epochs, the learning rate, the weight decay and the
  momentum (the context \<^verbatim>\<open>mx.gpu(0)\<close> is a constant), \<open>Speedometer\<close> builds the
  callback and \<open>fit\<close> runs the training loop (the logging set-up is left out). The
  learning rate and the literals \<open>0.0001\<close> and \<open>0.9\<close> are handed to the framework
  and never computed with here; they stand as the numbers they denote. The
  local variable \<^verbatim>\<open>batch_size\<close> of the source is \<open>batch_sz\<close> here; the parameter is
  its first value and \<^verbatim>\<open>batch_size = 64\<close> rebinds it.
\<close>

record ('net, 'model, 'cb, 'r, 'f, 'out) mxnet =
  FeedForward :: "'net \<Rightarrow> int \<Rightarrow> real \<Rightarrow> real \<Rightarrow> real \<Rightarrow> 'model"
  Speedometer :: "int \<Rightarrow> int \<Rightarrow> 'cb"
  fit :: "'model \<Rightarrow> 'r DataIter \<Rightarrow> 'r DataIter \<Rightarrow> ('f list \<Rightarrow> 'f list \<Rightarrow> py_error + 'f)
            \<Rightarrow> 'cb \<Rightarrow> 'out"

definition train ::
  "('net, 'model, 'cb, 'r, 'f, 'out) mxnet \<Rightarrow> 'f arith \<Rightarrow> (string \<rightharpoonup> string list)
     \<Rightarrow> (string \<Rightarrow> int option) \<Rightarrow> (string \<Rightarrow> 'r option) \<Rightarrow> 'net \<Rightarrow> int \<Rightarrow> int \<Rightarrow> real
     \<Rightarrow> py_error + 'out" where
  "train mx fl fs pyint pyfloat network batch_sz num_epoch learning_rate =
     (let model = FeedForward mx network num_epoch learning_rate (1 / 10000) (9 / 10);
          batch_sz = 64
      in case get_data fs pyint pyfloat batch_sz of
           Inl e \<Rightarrow> Inl e
         | Inr (train_iter, test_iter) \<Rightarrow>
             Inr (fit mx model train_iter test_iter (RMSE fl)
                    (Speedometer mx batch_sz (20000 div batch_sz))))"

subsection \<open>Literals for the closed examples\<close>

text \<open>
  The closed examples below need concrete conversions. \<open>int_literal\<close> reads an
  optionally signed run of decimal digits and \<open>float_literal\<close> an unsigned run of
  digits, with or without a decimal point followed by more digits; both reject every
  other string. On the strings of the examples \<^verbatim>\<open>int\<close> and \<^verbatim>\<open>float\<close> give the same
  result (the value, or ValueError).
\<close>

definition isdigit :: "char \<Rightarrow> bool" where
  "isdigit c \<longleftrightarrow> c \<in> set ''0123456789''"

definition digits_value :: "string \<Rightarrow> nat" where
  "digits_value ds = foldl (\<lambda>a c. 10 * a + (of_char c - 48)) 0 ds"

definition unsigned_literal :: "string \<Rightarrow> nat option" where
  "unsigned_literal ds = (if ds \<noteq> [] \<and> list_all isdigit ds then Some (digits_value ds) else None)"

definition int_literal :: "string \<Rightarrow> int option" where
  "int_literal s =
     (case s of
        [] \<Rightarrow> None
      | c # r \<Rightarrow>
          if c = CHR ''-'' then map_option (\<lambda>v. - int v) (unsigned_literal r)
          else if c = CHR ''+'' then map_option int (unsigned_literal r)
          else map_option int (unsigned_literal s))"

definition float_literal :: "string \<Rightarrow> real option" where
  "float_literal s =
     (case split s (CHR ''.'') of
        [a] \<Rightarrow> map_option real (unsigned_literal a)
      | [a, b] \<Rightarrow>
          (case (unsigned_literal a, unsigned_literal b) of
             (Some v, Some w) \<Rightarrow> Some (real v + real w / 10 ^ length b)
           | _ \<Rightarrow> None)
      | _ \<Rightarrow> None)"

text \<open>A line of a file from its fields: joined by tabs, ended by a newline.\<close>

definition tsv :: "string list \<Rightarrow> string" where
  "tsv fs = foldr (\<lambda>f r. if r = [] then f else f @ TAB # r) fs [] @ [CHR 0x0A]"

definition example_file :: "string list" where
  "example_file =
     [tsv [''1'', ''2'', ''3.0'', ''0''], tsv [''2'', ''3'', ''4.0'', ''0''], ''bad'']"

definition bad_id_file :: "string list" where
  "bad_id_file = [tsv [''1'', ''2'', ''3.0'', ''0''], tsv [''x'', ''3'', ''4.0'', ''0'']]"

definition bad_rating_file :: "string list" where
  "bad_rating_file =
     [tsv [''1'', ''2'', ''3.0'', ''0''], ''bad'', tsv [''2'', ''3'', ''good'', ''0'']]"

definition five_records :: "real DataIter" where
  "five_records =
     \<lparr> batch_size = 2,
       records = [(1, 10, 1), (2, 20, 2), (3, 30, 3), (4, 40, 4), (5, 50, 5)],
       provide_data = [(''user'', [2]), (''item'', [2])],
       provide_label = [(''score'', [2])] \<rparr>"

definition two_batches :: "real Batch list" where
  "two_batches =
     [\<lparr> data = [[1, 2], [10, 20]], label = [[1, 2]],
        data_names = [''user'', ''item''], label_names = [''score''] \<rparr>,
      \<lparr> data = [[3, 4], [30, 40]], label = [[3, 4]],
        data_names = [''user'', ''item''], label_names = [''score''] \<rparr>]"

text \<open>A generator for the examples: every draw is one half, the state counts the draws.\<close>

definition half :: "nat \<Rightarrow> real \<times> nat" where
  "half g = (1 / 2, Suc g)"

text \<open>
  An arithmetic for the examples: float values are the finite numbers, the two
  infinities and NaN; every operation gives the exact result, turned into an infinity
  when its magnitude reaches \<open>2 ^ 1024\<close>, and follows the IEEE rules on infinities and
  NaN. There is no rounding, no underflow and one zero. Python's float division raises
  on a divisor \<open>0.0\<close> and \<^verbatim>\<open>math.sqrt\<close> on a negative argument. On the examples below,
  whose intermediate results are small integers, powers of two, infinities or NaN,
  double precision gives the same results.
\<close>

datatype fval = Num real | PInf | NInf | NaN

definition overflow :: "real \<Rightarrow> fval" where
  "overflow v = (if 2 ^ 1024 \<le> v then PInf else if v \<le> - (2 ^ 1024) then NInf else Num v)"

fun neg :: "fval \<Rightarrow> fval" where
  "neg (Num v) = Num (- v)"
| "neg PInf = NInf"
| "neg NInf = PInf"
| "neg NaN = NaN"

fun sign :: "fval \<Rightarrow> real" where
  "sign (Num v) = sgn v"
| "sign PInf = 1"
| "sign NInf = - 1"
| "sign NaN = 0"

fun x_add :: "fval \<Rightarrow> fval \<Rightarrow> fval" where
  "x_add (Num a) (Num b) = overflow (a + b)"
| "x_add NaN y = NaN"
| "x_add x NaN = NaN"
| "x_add PInf NInf = NaN"
| "x_add NInf PInf = NaN"
| "x_add PInf y = PInf"
| "x_add NInf y = NInf"
| "x_add (Num a) y = y"

definition x_sub :: "fval \<Rightarrow> fval \<Rightarrow> fval" where
  "x_sub x y = x_add x (neg y)"

fun x_mul :: "fval \<Rightarrow> fval \<Rightarrow> fval" where
  "x_mul (Num a) (Num b) = overflow (a * b)"
| "x_mul NaN y = NaN"
| "x_mul x NaN = NaN"
| "x_mul x y = (if sign x * sign y = 0 then NaN else if 0 < sign x * sign y then PInf else NInf)"

fun x_div :: "fval \<Rightarrow> fval \<Rightarrow> py_error + fval" where
  "x_div x (Num b) =
     (if b = 0 then Inl ZeroDivisionError
      else (case x of
              Num a \<Rightarrow> Inr (overflow (a / b))
            | NaN \<Rightarrow> Inr NaN
            | _ \<Rightarrow> Inr (if 0 < sign x * sgn b then PInf else NInf)))"
| "x_div NaN y = Inr NaN"
| "x_div x NaN = Inr NaN"
| "x_div (Num a) y = Inr (Num 0)"
| "x_div x y = Inr NaN"

fun x_sqrt :: "fval \<Rightarrow> py_error + fval" where
  "x_sqrt (Num v) = (if v < 0 then Inl ValueError else Inr (Num (sqrt v)))"
| "x_sqrt PInf = Inr PInf"
| "x_sqrt NInf = Inl ValueError"
| "x_sqrt NaN = Inr NaN"

definition xarith :: "fval arith" where
  "xarith = \<lparr> f_zero = Num 0, f_one = Num 1, f_add = x_add, f_sub = x_sub, f_mul = x_mul,
               f_div = x_div, f_sqrt = x_sqrt \<rparr>"

subsection \<open>The vocabulary of the claims\<close>

text \<open>
  The definitions of this subsection are not code of the notebook: they say, in the
  words of the specification, what the functions above are compared with.
\<close>

text \<open>The records \<open>k * batch_size\<close> up to \<open>(k + 1) * batch_size - 1\<close> of the stored
  sequence, and the batch made of their three columns.\<close>

definition slice :: "'r DataIter \<Rightarrow> int \<Rightarrow> 'r RatingRecord list" where
  "slice self k = take (nat (batch_size self)) (drop (nat (k * batch_size self)) (records self))"

definition spec_batch :: "'r DataIter \<Rightarrow> int \<Rightarrow> 'r Batch" where
  "spec_batch self k =
     \<lparr> data = [map fst (slice self k), map (fst \<circ> snd) (slice self k)],
       label = [map (snd \<circ> snd) (slice self k)],
       data_names = [''user'', ''item''], label_names = [''score''] \<rparr>"

text \<open>The records a batch holds: its user, item and score arrays, read row by row.\<close>

definition batch_records :: "'r Batch \<Rightarrow> 'r RatingRecord list" where
  "batch_records b = zip (data b ! 0) (zip (data b ! 1) (label b ! 0))"

text \<open>A line splits into exactly four fields; it is well-formed when moreover the first
  two fields convert to integers and the third to a float; \<open>record_of\<close> is the record of
  a well-formed line, which leaves the fourth field (the timestamp) out.\<close>

definition four_fields :: "string \<Rightarrow> bool" where
  "four_fields line \<longleftrightarrow> length (tokens line) = 4"

definition wellformed :: "(string \<Rightarrow> int option) \<Rightarrow> (string \<Rightarrow> 'r option) \<Rightarrow> string \<Rightarrow> bool" where
  "wellformed pyint pyfloat line \<longleftrightarrow>
     four_fields line \<and> pyint (tokens line ! 0) \<noteq> None \<and> pyint (tokens line ! 1) \<noteq> None
       \<and> pyfloat (tokens line ! 2) \<noteq> None"

definition record_of ::
  "(string \<Rightarrow> int option) \<Rightarrow> (string \<Rightarrow> 'r option) \<Rightarrow> string \<Rightarrow> 'r RatingRecord" where
  "record_of pyint pyfloat line =
     (the (pyint (tokens line ! 0)), the (pyint (tokens line ! 1)), the (pyfloat (tokens line ! 2)))"

text \<open>A line with four fields one of whose three numeric fields does not convert.\<close>

definition parse_fault :: "(string \<Rightarrow> int option) \<Rightarrow> (string \<Rightarrow> 'r option) \<Rightarrow> string \<Rightarrow> bool" where
  "parse_fault pyint pyfloat line \<longleftrightarrow>
     four_fields line \<and> (pyint (tokens line ! 0) = None \<or> pyint (tokens line ! 1) = None
       \<or> pyfloat (tokens line ! 2) = None)"

text \<open>The user ids and the item ids of the lines with four fields, and the pair the
  claim about \<^verbatim>\<open>max_id\<close> names: one more than the largest of each, and \<open>(1, 1)\<close> when
  there is no such line.\<close>

definition user_ids :: "(string \<Rightarrow> int option) \<Rightarrow> string list \<Rightarrow> int set" where
  "user_ids pyint lines = set (map (\<lambda>l. the (pyint (tokens l ! 0))) (filter four_fields lines))"

definition item_ids :: "(string \<Rightarrow> int option) \<Rightarrow> string list \<Rightarrow> int set" where
  "item_ids pyint lines = set (map (\<lambda>l. the (pyint (tokens l ! 1))) (filter four_fields lines))"

definition claimed_max_id :: "(string \<Rightarrow> int option) \<Rightarrow> string list \<Rightarrow> int \<times> int" where
  "claimed_max_id pyint lines =
     (if filter four_fields lines = [] then (1, 1)
      else (1 + Max (user_ids pyint lines), 1 + Max (item_ids pyint lines)))"

text \<open>
  What \<^verbatim>\<open>RMSE\<close> is compared with. In float arithmetic: the sum, accumulated from
  \<open>0.0\<close> in the order of the indices, of the products of each difference with itself,
  and the count of \<open>m\<close> elements, \<open>0.0\<close> with \<open>1.0\<close> added \<open>m\<close> times. In the
  exact arithmetic of the claim: \<open>sqrt ((1 / n) * (\<Sum>i<n. (label[i] - pred[i])\<^sup>2))\<close>.
\<close>

definition float_sum_sq :: "'f arith \<Rightarrow> 'f list \<Rightarrow> 'f list \<Rightarrow> 'f" where
  "float_sum_sq fl lab pred =
     foldl (\<lambda>ret (l, p). f_add fl ret (f_mul fl (f_sub fl l p) (f_sub fl l p))) (f_zero fl)
       (zip lab pred)"

definition float_count :: "'f arith \<Rightarrow> nat \<Rightarrow> 'f" where
  "float_count fl m = ((\<lambda>n. f_add fl n (f_one fl)) ^^ m) (f_zero fl)"

definition claimed_rmse :: "real list \<Rightarrow> real list \<Rightarrow> real" where
  "claimed_rmse lab pred =
     sqrt ((1 / real (length lab)) * (\<Sum>i<length lab. (lab ! i - pred ! i)\<^sup>2))"

text \<open>
  Facts of IEEE arithmetic that the claims about \<^verbatim>\<open>RMSE\<close> rest on. With zero:
  \<open>0.0 * 0.0\<close> and \<open>0.0 + 0.0\<close> are \<open>0.0\<close>, so is \<open>0.0\<close> divided by the count of one
  or more elements, and the root of \<open>0.0\<close> is \<open>0.0\<close>. On differences: \<open>a - b\<close> and
  \<open>b - a\<close> differ in sign only, and so have the same product with themselves.
\<close>

definition zero_laws :: "'f arith \<Rightarrow> bool" where
  "zero_laws fl \<longleftrightarrow>
     f_mul fl (f_zero fl) (f_zero fl) = f_zero fl
     \<and> f_add fl (f_zero fl) (f_zero fl) = f_zero fl
     \<and> f_sqrt fl (f_zero fl) = Inr (f_zero fl)
     \<and> (\<forall>m. 0 < m \<longrightarrow> f_div fl (f_zero fl) (float_count fl m) = Inr (f_zero fl))"

definition sq_diff_symmetric :: "'f arith \<Rightarrow> bool" where
  "sq_diff_symmetric fl \<longleftrightarrow>
     (\<forall>a b. f_mul fl (f_sub fl a b) (f_sub fl a b) = f_mul fl (f_sub fl b a) (f_sub fl b a))"

section \<open>Auxiliary facts\<close>

lemmas line_eval =
  tokens_def tsv_def strip_def isspace_def split_def four_fields_def wellformed_def
  int_literal_def float_literal_def unsigned_literal_def isdigit_def digits_value_def

lemmas list_eval = range_def upt_rec getitem_def setitem_def

lemma getitem_in_range:
  "0 \<le> j \<Longrightarrow> j < int (length xs) \<Longrightarrow> getitem xs j = Inr (xs ! nat j)"
  by (simp add: getitem_def)

lemma getitem_beyond: "int (length xs) \<le> j \<Longrightarrow> getitem xs j = Inl IndexError"
  by (simp add: getitem_def)

lemma setitem_in_range:
  "0 \<le> j \<Longrightarrow> j < int (length xs) \<Longrightarrow> setitem xs j v = Inr (xs[nat j := v])"
  by (simp add: setitem_def)

subsection \<open>The batches of one pass\<close>

text \<open>While every index it reads is in range, the inner loop appends the three columns
  of the records read.\<close>

lemma fill_batch_in_range:
  "(\<And>i. i \<in> set is \<Longrightarrow>
      0 \<le> k * batch_size self + i \<and> k * batch_size self + i < int (length (records self)))
   \<Longrightarrow> fill_batch self k is (users, items, scores) =
       Inr (users @ map (\<lambda>i. fst (records self ! nat (k * batch_size self + i))) is,
            items @ map (\<lambda>i. fst (snd (records self ! nat (k * batch_size self + i)))) is,
            scores @ map (\<lambda>i. snd (snd (records self ! nat (k * batch_size self + i)))) is)"
proof (induction "is" arbitrary: users items scores)
  case Nil
  show ?case by simp
next
  case (Cons i "is")
  have r: "0 \<le> k * batch_size self + i" "k * batch_size self + i < int (length (records self))"
    using Cons.prems [of i] by simp_all
  obtain u it s where rec: "records self ! nat (k * batch_size self + i) = (u, it, s)"
    by (cases "records self ! nat (k * batch_size self + i)") auto
  have tl: "\<And>i'. i' \<in> set is \<Longrightarrow>
      0 \<le> k * batch_size self + i' \<and> k * batch_size self + i' < int (length (records self))"
    using Cons.prems by simp
  show ?case
    using Cons.IH [OF tl] rec
    by (simp add: getitem_in_range [OF r])
qed

lemma map_nth_range:
  "a + n \<le> length xs \<Longrightarrow> map (\<lambda>i. f (xs ! (a + i))) [0..<n] = map f (take n (drop a xs))"
  by (rule nth_equalityI) simp_all

lemma fill_batch_slice:
  assumes bs: "0 < batch_size self" and k: "0 \<le> k"
    and fit: "(k + 1) * batch_size self \<le> int (length (records self))"
  shows "fill_batch self k (range (batch_size self)) ([], [], []) =
           Inr (map fst (slice self k), map (fst \<circ> snd) (slice self k), map (snd \<circ> snd) (slice self k))"
proof -
  let ?b = "batch_size self"
  have kb: "0 \<le> k * ?b" using bs k by simp
  have le: "nat (k * ?b) + nat ?b \<le> length (records self)"
    using fit bs kb by (simp add: algebra_simps nat_add_distrib [symmetric] nat_le_iff)
  have idx: "\<And>i. i \<in> set (range ?b) \<Longrightarrow>
      0 \<le> k * ?b + i \<and> k * ?b + i < int (length (records self))"
    using fit kb by (auto simp: range_def algebra_simps)
  have nat_idx: "\<And>m. nat (k * ?b + int m) = nat (k * ?b) + m"
    using kb by (simp add: nat_add_distrib)
  have "fill_batch self k (range ?b) ([], [], []) =
          Inr (map (\<lambda>i. fst (records self ! nat (k * ?b + i))) (range ?b),
               map (\<lambda>i. fst (snd (records self ! nat (k * ?b + i)))) (range ?b),
               map (\<lambda>i. snd (snd (records self ! nat (k * ?b + i)))) (range ?b))"
    using fill_batch_in_range [OF idx, of "range ?b" "[]" "[]" "[]"] by simp
  also have "map (\<lambda>i. fst (records self ! nat (k * ?b + i))) (range ?b) = map fst (slice self k)"
    using map_nth_range [OF le, of fst] by (simp add: range_def slice_def comp_def nat_idx)
  also have "map (\<lambda>i. fst (snd (records self ! nat (k * ?b + i)))) (range ?b)
               = map (fst \<circ> snd) (slice self k)"
    using map_nth_range [OF le, of "fst \<circ> snd"] by (simp add: range_def slice_def comp_def nat_idx)
  also have "map (\<lambda>i. snd (snd (records self ! nat (k * ?b + i)))) (range ?b)
               = map (snd \<circ> snd) (slice self k)"
    using map_nth_range [OF le, of "snd \<circ> snd"] by (simp add: range_def slice_def comp_def nat_idx)
  finally show ?thesis .
qed

lemma yield_batches_spec:
  assumes bs: "0 < batch_size self"
    and ks: "\<And>k. k \<in> set ks \<Longrightarrow> 0 \<le> k \<and> (k + 1) * batch_size self \<le> int (length (records self))"
  shows "yield_batches self ks = Inr (map (spec_batch self) ks)"
  using ks
proof (induction ks)
  case Nil
  show ?case by simp
next
  case (Cons k ks)
  have "0 \<le> k" "(k + 1) * batch_size self \<le> int (length (records self))"
    using Cons.prems [of k] by simp_all
  from fill_batch_slice [OF bs this] Cons.IH Cons.prems
  show ?case by (simp add: spec_batch_def)
qed

lemma range_fits:
  assumes bs: "0 < (b::int)" and k: "k \<in> set (range (n div b))"
  shows "0 \<le> k \<and> (k + 1) * b \<le> n"
proof -
  from k have k0: "0 \<le> k" and klt: "k < n div b" by (auto simp: range_def)
  then have "k + 1 \<le> n div b" by simp
  then have "(k + 1) * b \<le> (n div b) * b" using bs by (simp add: mult_right_mono)
  moreover have "(n div b) * b \<le> n"
  proof -
    have "b * (n div b) + n mod b = n" by (rule mult_div_mod_eq)
    moreover have "0 \<le> n mod b" using bs by (rule pos_mod_sign)
    ultimately have "b * (n div b) \<le> n" by linarith
    then show ?thesis by (simp add: mult.commute)
  qed
  ultimately show ?thesis using k0 by simp
qed

text \<open>With a positive batch size no read of the pass is out of range: the generator
  yields the batch of each slice \<open>k\<close> below \<open>len(self.data) / self.batch_size\<close>.\<close>

lemma DataIter_iter_spec:
  assumes bs: "0 < batch_size self"
  shows "DataIter_iter self =
           Inr (map (spec_batch self) (range (int (length (records self)) div batch_size self)))"
  using bs yield_batches_spec [OF bs range_fits [OF bs]]
  by (simp add: DataIter_iter_def)

lemma batch_records_spec_batch: "batch_records (spec_batch self k) = slice self k"
proof -
  have "zip (map (fst \<circ> snd) (slice self k)) (map (snd \<circ> snd) (slice self k)) = map snd (slice self k)"
    using zip_map_fst_snd [of "map snd (slice self k)"] by (simp add: comp_def)
  then show ?thesis
    by (simp add: batch_records_def spec_batch_def zip_map_fst_snd)
qed

lemma concat_chunks: "concat (map (\<lambda>k. take b (drop (k * b) xs)) [0..<m]) = take (m * b) xs"
proof (induction m)
  case 0
  show ?case by simp
next
  case (Suc m)
  have "take (m * b + b) xs = take (m * b) xs @ take b (drop (m * b) xs)"
    by (rule take_add)
  with Suc show ?case by (simp add: add.commute)
qed

lemma slice_nat: "0 \<le> batch_size self \<Longrightarrow>
    slice self (int k) = take (nat (batch_size self)) (drop (k * nat (batch_size self)) (records self))"
  by (simp add: slice_def nat_mult_distrib)

text \<open>A batch is yielded only under a positive batch size: zero raises before the first
  batch, and a negative size makes the outer range empty.\<close>

lemma iter_yields_only_for_positive:
  assumes it: "DataIter_iter self = Inr bl" and k: "k < length bl"
  shows "0 < batch_size self"
proof (rule ccontr)
  assume "\<not> 0 < batch_size self"
  moreover have "batch_size self \<noteq> 0" using it by (auto simp: DataIter_iter_def)
  ultimately have neg: "batch_size self < 0" by simp
  then have "int (length (records self)) div batch_size self \<le> 0"
    by (simp add: div_nonneg_neg_le0)
  then have "range (int (length (records self)) div batch_size self) = []"
    by (simp add: range_def)
  with it neg have "bl = []" by (simp add: DataIter_iter_def)
  with k show False by simp
qed

text \<open>The pass raises in one case only, the batch size zero, and then before any batch
  is yielded: the list of the yielded batches loses nothing of the generator.\<close>

lemma iter_raises_only_on_zero:
  assumes "DataIter_iter self = Inl e"
  shows "batch_size self = 0 \<and> e = ZeroDivisionError"
proof (cases "batch_size self" "0 :: int" rule: linorder_cases)
  case less
  then have "int (length (records self)) div batch_size self \<le> 0"
    by (simp add: div_nonneg_neg_le0)
  then have "range (int (length (records self)) div batch_size self) = []"
    by (simp add: range_def)
  with assms less show ?thesis by (simp add: DataIter_iter_def)
next
  case equal
  with assms show ?thesis by (simp add: DataIter_iter_def)
next
  case greater
  with assms DataIter_iter_spec [OF greater] show ?thesis by simp
qed

subsection \<open>The parser and max_id\<close>

text \<open>What the loop of the constructor computes: ValueError as soon as some line has
  four fields and a field that does not convert, the records of the well-formed lines
  after those already read otherwise.\<close>

lemma read_records_char:
  "read_records pyint pyfloat lines acc =
     (if list_ex (parse_fault pyint pyfloat) lines then Inl ValueError
      else Inr (acc @ map (record_of pyint pyfloat) (filter (wellformed pyint pyfloat) lines)))"
proof (induction lines arbitrary: acc)
  case Nil
  show ?case by simp
next
  case (Cons line rest)
  show ?case
  proof (cases "four_fields line")
    case False
    then have "\<not> parse_fault pyint pyfloat line" "\<not> wellformed pyint pyfloat line"
      by (simp_all add: parse_fault_def wellformed_def)
    then show ?thesis
      using False Cons.IH [of acc] by (simp add: four_fields_def)
  next
    case ff: True
    show ?thesis
    proof (cases "parse_fault pyint pyfloat line")
      case True
      then show ?thesis
        using ff by (auto simp: four_fields_def parse_fault_def Let_def split: option.splits)
    next
      case False
      with ff obtain u i s where p: "pyint (tokens line ! 0) = Some u"
        "pyint (tokens line ! 1) = Some i" "pyfloat (tokens line ! 2) = Some s"
        by (auto simp: parse_fault_def)
      have wf: "wellformed pyint pyfloat line" using ff p by (simp add: wellformed_def)
      have ro: "record_of pyint pyfloat line = (u, i, s)" using p by (simp add: record_of_def)
      show ?thesis
        using ff False wf ro p Cons.IH [of "acc @ [(u, i, s)]"]
        by (simp add: four_fields_def)
    qed
  qed
qed

lemma max_id_loop_fold:
  assumes "\<And>line. line \<in> set lines \<Longrightarrow> four_fields line \<Longrightarrow>
             pyint (tokens line ! 0) \<noteq> None \<and> pyint (tokens line ! 1) \<noteq> None"
  shows "max_id_loop pyint lines (mu, mi) =
     Inr (fold max (map (\<lambda>l. the (pyint (tokens l ! 0))) (filter four_fields lines)) mu,
          fold max (map (\<lambda>l. the (pyint (tokens l ! 1))) (filter four_fields lines)) mi)"
  using assms
proof (induction lines arbitrary: mu mi)
  case Nil
  show ?case by simp
next
  case (Cons line rest)
  have rest: "\<And>l. l \<in> set rest \<Longrightarrow> four_fields l \<Longrightarrow>
             pyint (tokens l ! 0) \<noteq> None \<and> pyint (tokens l ! 1) \<noteq> None"
    using Cons.prems by simp
  show ?case
  proof (cases "four_fields line")
    case False
    then show ?thesis using Cons.IH [OF rest] by (simp add: four_fields_def)
  next
    case True
    with Cons.prems [of line] obtain u i where
      p: "pyint (tokens line ! 0) = Some u" "pyint (tokens line ! 1) = Some i" by auto
    show ?thesis
      using True p Cons.IH [OF rest, of "max mu u" "max mi i"]
      by (simp add: four_fields_def max.commute)
  qed
qed

lemma fold_max_Max: "fold max xs (m::int) = Max (insert m (set xs))"
  using Max.set_eq_fold [of m xs] by simp

subsection \<open>The loop of RMSE\<close>

text \<open>While the indices are in range in both sequences, the loop adds the products in
  the order of the indices and counts the rounds.\<close>

lemma RMSE_loop_indices:
  assumes "\<And>j. j \<in> set js \<Longrightarrow> j < length lab \<and> j < length pred"
  shows "RMSE_loop fl lab pred (map int js) (ret, n) =
           Inr (foldl (\<lambda>r i. f_add fl r (f_mul fl (f_sub fl (lab ! i) (pred ! i))
                                              (f_sub fl (lab ! i) (pred ! i)))) ret js,
                ((\<lambda>n. f_add fl n (f_one fl)) ^^ length js) n)"
  using assms
proof (induction js arbitrary: ret n)
  case Nil
  show ?case by simp
next
  case (Cons j js)
  have j: "j < length lab" "j < length pred" using Cons.prems [of j] by simp_all
  have tl: "\<And>j'. j' \<in> set js \<Longrightarrow> j' < length lab \<and> j' < length pred"
    using Cons.prems by simp
  show ?case
    using Cons.IH [OF tl] j funpow_swap1 [of "\<lambda>n. f_add fl n (f_one fl)" "length js" n]
    by (simp add: getitem_in_range)
qed

lemma RMSE_loop_append:
  "RMSE_loop fl lab pred (is @ js) acc =
     (case RMSE_loop fl lab pred is acc of
        Inl e \<Rightarrow> Inl e
      | Inr acc' \<Rightarrow> RMSE_loop fl lab pred js acc')"
proof (induction "is" arbitrary: acc)
  case Nil
  show ?case by (cases acc) simp
next
  case (Cons i "is")
  obtain ret n where acc: "acc = (ret, n)" by (cases acc)
  show ?case unfolding acc using Cons.IH
    by (simp split: sum.splits)
qed

lemma zip_by_index:
  "length xs \<le> length ys \<Longrightarrow> zip xs ys = map (\<lambda>i. (xs ! i, ys ! i)) [0..<length xs]"
  by (rule nth_equalityI) simp_all

text \<open>A \<open>label\<close> no longer than \<open>pred\<close>: no read fails, and \<^verbatim>\<open>RMSE\<close> is
  \<^verbatim>\<open>math.sqrt(ret / n)\<close> on the float sum and the float count.\<close>

lemma RMSE_total:
  assumes le: "length lab \<le> length pred"
  shows "RMSE_loop fl lab pred (range (int (length lab))) (f_zero fl, f_zero fl) =
           Inr (float_sum_sq fl lab pred, float_count fl (length lab))"
proof -
  have "RMSE_loop fl lab pred (map int [0..<length lab]) (f_zero fl, f_zero fl) =
           Inr (foldl (\<lambda>r i. f_add fl r (f_mul fl (f_sub fl (lab ! i) (pred ! i))
                                              (f_sub fl (lab ! i) (pred ! i)))) (f_zero fl)
                  [0..<length lab],
                ((\<lambda>n. f_add fl n (f_one fl)) ^^ length [0..<length lab]) (f_zero fl))"
    using le by (intro RMSE_loop_indices) simp
  then show ?thesis
    by (simp add: range_def float_sum_sq_def float_count_def zip_by_index [OF le]
        foldl_map)
qed

lemma RMSE_value:
  assumes le: "length lab \<le> length pred"
  shows "RMSE fl lab pred =
           (case f_div fl (float_sum_sq fl lab pred) (float_count fl (length lab)) of
              Inl e \<Rightarrow> Inl e
            | Inr mean \<Rightarrow> f_sqrt fl mean)"
  by (simp add: RMSE_def RMSE_total [OF le])

text \<open>A shorter \<open>pred\<close>: the loop reaches the index \<open>len(pred)\<close>, where \<^verbatim>\<open>pred[i]\<close>
  raises.\<close>

lemma RMSE_short_pred:
  assumes lt: "length pred < length lab"
  shows "RMSE fl lab pred = Inl IndexError"
proof -
  let ?p = "length pred"
  have split: "[0..<length lab] = [0..<?p] @ ?p # [Suc ?p..<length lab]"
    using lt by (metis upt_conv_Cons upt_add_eq_append le_add_diff_inverse less_imp_le zero_le)
  have "\<exists>acc. RMSE_loop fl lab pred (map int [0..<?p]) (f_zero fl, f_zero fl) = Inr acc"
    using lt by (subst RMSE_loop_indices) simp_all
  then obtain acc where
    first: "RMSE_loop fl lab pred (map int [0..<?p]) (f_zero fl, f_zero fl) = Inr acc"
    by blast
  obtain ret n where acc: "acc = (ret, n)" by (cases acc)
  have gl: "getitem lab (int ?p) = Inr (lab ! ?p)" using lt by (simp add: getitem_in_range)
  have gp: "getitem pred (int ?p) = Inl IndexError" by (simp add: getitem_beyond)
  have "RMSE_loop fl lab pred (range (int (length lab))) (f_zero fl, f_zero fl) = Inl IndexError"
    unfolding range_def nat_int split map_append RMSE_loop_append first acc
    by (simp add: gl gp)
  then show ?thesis by (simp add: RMSE_def)
qed

lemma float_sum_sq_take:
  "float_sum_sq fl lab (take (length lab) pred) = float_sum_sq fl lab pred"
proof -
  have "zip lab (take (length lab) pred) = zip lab pred"
    by (rule nth_equalityI) auto
  then show ?thesis by (simp add: float_sum_sq_def)
qed


subsection \<open>The arithmetic of the examples\<close>

text \<open>The arithmetic of the examples has the two properties of IEEE arithmetic defined
  above.\<close>

lemmas arith_eval = xarith_def x_sub_def overflow_def

lemma neg_overflow: "neg (overflow v) = overflow (- v)"
  by (simp add: overflow_def)

lemma x_add_neg: "x_add (neg x) (neg y) = neg (x_add x y)"
  by (cases x; cases y) (simp_all add: neg_overflow)

lemma neg_neg: "neg (neg x) = x"
  by (cases x) simp_all

lemma x_sub_swap: "x_sub b a = neg (x_sub a b)"
proof -
  have "neg (x_add a (neg b)) = x_add (neg a) b"
    using x_add_neg [of a "neg b"] by (simp add: neg_neg)
  also have "\<dots> = x_add b (neg a)"
    by (cases a; cases b) (simp_all add: add.commute)
  finally show ?thesis by (simp add: x_sub_def)
qed

lemma x_mul_neg: "x_mul (neg y) (neg y) = x_mul y y"
  by (cases y) simp_all

lemma xarith_sq_diff_symmetric: "sq_diff_symmetric xarith"
  unfolding sq_diff_symmetric_def
proof (intro allI)
  fix a b
  show "f_mul xarith (f_sub xarith a b) (f_sub xarith a b)
          = f_mul xarith (f_sub xarith b a) (f_sub xarith b a)"
    using x_mul_neg [of "x_sub a b"] by (simp add: xarith_def x_sub_swap [of b a])
qed

lemma xarith_count: "0 < m \<Longrightarrow> (\<exists>v. 0 < v \<and> float_count xarith m = Num v) \<or> float_count xarith m = PInf"
proof (induction m)
  case 0
  then show ?case by simp
next
  case (Suc m)
  show ?case
  proof (cases "m = 0")
    case True
    then show ?thesis by (simp add: float_count_def arith_eval)
  next
    case False
    with Suc.IH consider v where "0 < v" "float_count xarith m = Num v"
      | "float_count xarith m = PInf" by auto
    then show ?thesis
    proof cases
      case 1
      have "float_count xarith (Suc m) = overflow (v + 1)"
        using 1 by (simp add: float_count_def xarith_def)
      then show ?thesis using 1(1) by (simp add: overflow_def)
    next
      case 2
      have "float_count xarith (Suc m) = x_add (float_count xarith m) (Num 1)"
        by (simp add: float_count_def xarith_def)
      then show ?thesis using 2 by simp
    qed
  qed
qed

lemma xarith_zero_laws: "zero_laws xarith"
proof -
  have "x_div (Num 0) (float_count xarith m) = Inr (Num 0)" if "0 < m" for m
    using xarith_count [OF that] by (auto simp: overflow_def)
  then show ?thesis by (simp add: zero_laws_def arith_eval)
qed

lemma float_sum_sq_zero:
  assumes z: "f_mul fl (f_zero fl) (f_zero fl) = f_zero fl" "f_add fl (f_zero fl) (f_zero fl) = f_zero fl"
    and fin: "\<And>a. a \<in> set x \<Longrightarrow> f_sub fl a a = f_zero fl"
  shows "float_sum_sq fl x x = f_zero fl"
proof -
  have "foldl (\<lambda>ret (l, p). f_add fl ret (f_mul fl (f_sub fl l p) (f_sub fl l p))) (f_zero fl)
          (zip x x) = f_zero fl"
    using fin by (induction x) (simp_all add: z)
  then show ?thesis by (simp add: float_sum_sq_def)
qed

lemma float_sum_sq_swap:
  assumes "sq_diff_symmetric fl"
  shows "float_sum_sq fl a b = float_sum_sq fl b a"
proof -
  have sw: "zip b a = map (\<lambda>(l, p). (p, l)) (zip a b)"
    by (simp add: zip_commute [of b a])
  have "(\<lambda>ret (l, p). f_add fl ret (f_mul fl (f_sub fl p l) (f_sub fl p l)))
      = (\<lambda>ret (l, p). f_add fl ret (f_mul fl (f_sub fl l p) (f_sub fl l p)))"
    using assms by (auto simp: sq_diff_symmetric_def fun_eq_iff)
  then show ?thesis
    by (simp add: float_sum_sq_def sw foldl_map case_prod_unfold)
qed

lemma claimed_rmse_single: "0 \<le> a \<Longrightarrow> claimed_rmse [a] [- a] = 2 * a"
proof -
  assume "0 \<le> a"
  have "(a - - a)\<^sup>2 = (2 * a)\<^sup>2" by simp
  then have "claimed_rmse [a] [- a] = sqrt ((2 * a)\<^sup>2)"
    by (simp add: claimed_rmse_def)
  also have "\<dots> = 2 * a" using \<open>0 \<le> a\<close> by (intro real_sqrt_unique) simp_all
  finally show ?thesis .
qed

subsection \<open>The shuffle\<close>

text \<open>A draw below one gives an index between \<open>0\<close> and \<open>i\<close>.\<close>

lemma drawn_index:
  assumes r: "0 \<le> r" "r < 1" and i: "0 \<le> (i::int)"
  shows "0 \<le> int_of_float (r * (of_int i + 1)) \<and> int_of_float (r * (of_int i + 1)) \<le> i"
proof -
  have pos: "0 \<le> r * (of_int i + 1)" using r i by simp
  have "r * (of_int i + 1) < 1 * (of_int i + 1)"
    using r i by (intro mult_strict_right_mono) simp_all
  then have "r * (of_int i + 1) < of_int (i + 1)" by simp
  then have "\<lfloor>r * (of_int i + 1)\<rfloor> < i + 1" by (simp only: floor_less_iff)
  with pos show ?thesis by (simp add: int_of_float_def)
qed

text \<open>Each round exchanges two elements of the list, which keeps its multiset.\<close>

lemma shuffle_loop_permutes:
  assumes rnd: "\<forall>g. 0 \<le> fst (random g) \<and> fst (random g) < 1"
    and idx: "\<And>i. i \<in> set is \<Longrightarrow> 0 \<le> i \<and> i < int (length x)"
  shows "\<exists>x' g'. shuffle_loop random is (x, g) = Inr (x', g')
           \<and> mset x' = mset x \<and> length x' = length x"
  using idx
proof (induction "is" arbitrary: x g)
  case Nil
  show ?case by simp
next
  case (Cons i "is")
  obtain r g1 where rg: "random g = (r, g1)" by (cases "random g")
  have r: "0 \<le> r" "r < 1" using rnd [rule_format, of g] rg by simp_all
  have i: "0 \<le> i" "i < int (length x)" using Cons.prems [of i] by simp_all
  define j where "j = int_of_float (r * (of_int i + 1))"
  have j: "0 \<le> j" "j < int (length x)" using drawn_index [OF r i(1)] i(2) by (simp_all add: j_def)
  define x2 where "x2 = x[nat i := x ! nat j, nat j := x ! nat i]"
  have ni: "nat i < length x" and nj: "nat j < length x" using i j by simp_all
  have m2: "mset x2 = mset x" unfolding x2_def using mset_swap [OF nj ni] .
  have l2: "length x2 = length x" by (simp add: x2_def)
  have step: "shuffle_loop random (i # is) (x, g) = shuffle_loop random is (x2, g1)"
    using i j by (simp add: rg j_def [symmetric] getitem_in_range setitem_in_range x2_def)
  have "\<And>i'. i' \<in> set is \<Longrightarrow> 0 \<le> i' \<and> i' < int (length x2)"
    using Cons.prems by (simp add: l2)
  from Cons.IH [where g = g1, OF this] show ?case
    unfolding step by (simp add: m2 l2)
qed

section \<open>The claims\<close>

subsection \<open>C1: the number of batches\<close>

text \<open>
  C1. For every record sequence and every positive batch size, iterating the DataIter
  yields exactly \<open>record_count div batch_size\<close> batches, and the remainder
  (\<open>record_count mod batch_size\<close> records) is yielded in no batch: the stored sequence
  is the records of the yielded batches, in order, followed by a remainder of that
  length.
\<close>

theorem iter_floor_div_batches:
  assumes bs: "0 < batch_size self"
  shows "\<exists>bl rest. DataIter_iter self = Inr bl
           \<and> int (length bl) = int (length (records self)) div batch_size self
           \<and> records self = concat (map batch_records bl) @ rest
           \<and> int (length rest) = int (length (records self)) mod batch_size self"
proof -
  let ?b = "batch_size self" and ?xs = "records self"
  let ?n = "int (length ?xs)"
  let ?m = "nat (?n div ?b)"
  let ?bl = "map (spec_batch self) (range (?n div ?b))"
  have m0: "0 \<le> ?n div ?b" using bs by (simp add: pos_imp_zdiv_nonneg_iff)
  have it: "DataIter_iter self = Inr ?bl" by (rule DataIter_iter_spec [OF bs])
  have len: "int (length ?bl) = ?n div ?b" using m0 by (simp add: range_def)
  have "concat (map batch_records ?bl) = concat (map (\<lambda>k. slice self (int k)) [0..<?m])"
    by (simp add: range_def comp_def batch_records_spec_batch)
  also have "\<dots> = concat (map (\<lambda>k. take (nat ?b) (drop (k * nat ?b) ?xs)) [0..<?m])"
    using bs by (simp add: slice_nat)
  also have "\<dots> = take (?m * nat ?b) ?xs" by (rule concat_chunks)
  finally have cc: "concat (map batch_records ?bl) = take (?m * nat ?b) ?xs" .
  have mb: "int (?m * nat ?b) = (?n div ?b) * ?b" using bs m0 by simp
  have split: "(?n div ?b) * ?b + ?n mod ?b = ?n" by (rule div_mult_mod_eq)
  have "0 \<le> ?n mod ?b" using bs by (rule pos_mod_sign)
  with split mb have le: "?m * nat ?b \<le> length ?xs" by linarith
  have "int (length (drop (?m * nat ?b) ?xs)) = ?n - int (?m * nat ?b)"
    using le by (simp add: of_nat_diff)
  also have "\<dots> = ?n mod ?b" using split mb by linarith
  finally have rest: "int (length (drop (?m * nat ?b) ?xs)) = ?n mod ?b" .
  have "?xs = concat (map batch_records ?bl) @ drop (?m * nat ?b) ?xs"
    unfolding cc by simp
  with it len rest show ?thesis by blast
qed

text \<open>The example of the specification: five records and a batch size of two give two
  batches, and one record is left over.\<close>

theorem iter_floor_div_batches_witness:
  "0 < batch_size five_records
   \<and> DataIter_iter five_records = Inr two_batches
   \<and> (\<exists>bl rest. DataIter_iter five_records = Inr bl \<and> int (length bl) = 2
         \<and> records five_records = concat (map batch_records bl) @ rest \<and> int (length rest) = 1)"
proof -
  have bs: "0 < batch_size five_records" by (simp add: five_records_def)
  have run: "DataIter_iter five_records = Inr two_batches"
    by (simp add: DataIter_iter_def five_records_def two_batches_def list_eval)
  have "int (length (records five_records)) div batch_size five_records = 2"
    "int (length (records five_records)) mod batch_size five_records = 1"
    by (simp_all add: five_records_def)
  with iter_floor_div_batches [OF bs] bs run show ?thesis by simp
qed

subsection \<open>C2: one record per well-formed line\<close>

text \<open>A file with one well-formed line and one line of four fields whose user id
  does not convert: the constructor raises, so no record at all is parsed, while the
  number of well-formed lines is one.\<close>

theorem init_record_count_counterexample:
  "length (filter (wellformed int_literal float_literal) bad_id_file) = 1
   \<and> DataIter_init int_literal float_literal bad_id_file 2 = Inl ValueError"
  by (simp add: DataIter_init_def bad_id_file_def line_eval)

text \<open>
  C2, amended. For every input file in which each line that splits into exactly four
  fields is well-formed, the parser of DataIter produces exactly one RatingRecord per
  well-formed line, in the order of the file, keeping (user id, item id, rating) and
  leaving the timestamp out; the lines that do not split into exactly four fields are
  passed over, so the number of records is the number of well-formed lines (here also
  the number of lines with four fields).
\<close>

theorem init_one_record_per_wellformed_line:
  assumes ok: "\<forall>line \<in> set lines. four_fields line \<longrightarrow> wellformed pyint pyfloat line"
  shows "\<exists>self. DataIter_init pyint pyfloat lines bs = Inr self
           \<and> records self = map (record_of pyint pyfloat) (filter (wellformed pyint pyfloat) lines)
           \<and> length (records self) = length (filter (wellformed pyint pyfloat) lines)
           \<and> filter (wellformed pyint pyfloat) lines = filter four_fields lines"
proof -
  have "\<not> list_ex (parse_fault pyint pyfloat) lines"
    using ok by (auto simp: list_ex_iff parse_fault_def wellformed_def)
  then have "read_records pyint pyfloat lines [] =
      Inr (map (record_of pyint pyfloat) (filter (wellformed pyint pyfloat) lines))"
    by (simp add: read_records_char)
  moreover have "filter (wellformed pyint pyfloat) lines = filter four_fields lines"
    using ok by (auto simp: wellformed_def intro: filter_cong)
  ultimately show ?thesis by (simp add: DataIter_init_def)
qed

text \<open>The example of the specification: two rating lines and the line \<open>bad\<close> give two
  records.\<close>

theorem init_one_record_per_wellformed_line_witness:
  "list_all (\<lambda>line. wellformed int_literal float_literal line = four_fields line) example_file
   \<and> (\<exists>self. DataIter_init int_literal float_literal example_file 2 = Inr self
         \<and> records self = [(1, 2, 3), (2, 3, 4)]
         \<and> length (records self) = 2
         \<and> filter four_fields example_file
             = [tsv [''1'', ''2'', ''3.0'', ''0''], tsv [''2'', ''3'', ''4.0'', ''0'']])"
proof -
  have ok: "\<forall>line \<in> set example_file.
      four_fields line \<longrightarrow> wellformed int_literal float_literal line"
    by (simp add: example_file_def line_eval)
  have same: "list_all (\<lambda>line. wellformed int_literal float_literal line = four_fields line)
      example_file"
    by (simp add: example_file_def line_eval)
  have wf: "filter four_fields example_file
      = [tsv [''1'', ''2'', ''3.0'', ''0''], tsv [''2'', ''3'', ''4.0'', ''0'']]"
    by (simp add: example_file_def line_eval)
  have recs: "map (record_of int_literal float_literal) (filter four_fields example_file)
      = [(1, 2, 3), (2, 3, 4)]"
    unfolding wf by (simp add: record_of_def line_eval)
  from init_one_record_per_wellformed_line [OF ok, of 2] same wf recs
  show ?thesis by auto
qed

subsection \<open>C3: the value of RMSE\<close>

text \<open>On two empty sequences, which have equal length, \<^verbatim>\<open>ret / n\<close> is \<open>0.0 / 0.0\<close>:
  RMSE raises and returns no value. On the one-element sequences \<open>2 ^ 600\<close> and
  \<open>- (2 ^ 600)\<close> the value of the claim is \<open>2 ^ 601\<close>, while the product of the
  difference with itself overflows and RMSE returns infinity.\<close>

theorem RMSE_exact_value_counterexample:
  "RMSE xarith [] [] = Inl ZeroDivisionError
   \<and> claimed_rmse [2 ^ 600] [- (2 ^ 600)] = 2 * 2 ^ 600
   \<and> RMSE xarith [Num (2 ^ 600)] [Num (- (2 ^ 600))] = Inr PInf"
proof -
  have a: "RMSE xarith [] [] = Inl ZeroDivisionError"
    by (simp add: RMSE_def range_def arith_eval)
  have b: "claimed_rmse [2 ^ 600] [- (2 ^ 600)] = 2 * 2 ^ 600"
    by (rule claimed_rmse_single) simp
  have c: "RMSE xarith [Num (2 ^ 600)] [Num (- (2 ^ 600))] = Inr PInf"
    by (simp add: RMSE_def list_eval arith_eval)
  from a b c show ?thesis by (intro conjI)
qed

text \<open>
  C3, amended. For every pair of equal-length sequences of floats (label, pred),
  RMSE(label, pred) is \<^verbatim>\<open>math.sqrt(s / n)\<close> as floating-point arithmetic evaluates it,
  where \<open>s\<close> is the float sum, accumulated from \<open>0.0\<close> in the order of the indices, of
  the float products \<open>(label[i] - pred[i]) * (label[i] - pred[i])\<close> and \<open>n\<close> is the
  float count of the elements: the square root of the mean of the squared element-wise
  differences with every operation rounding and overflowing as floats do, and the
  error of the division or of the root where one of them raises (for two empty
  sequences \<open>s / n\<close> is \<open>0.0 / 0.0\<close>).
\<close>

theorem RMSE_float_root_mean_square:
  assumes "length lab = length pred"
  shows "RMSE fl lab pred =
           (case f_div fl (float_sum_sq fl lab pred) (float_count fl (length lab)) of
              Inl e \<Rightarrow> Inl e
            | Inr mean \<Rightarrow> f_sqrt fl mean)"
  using RMSE_value [of lab pred fl] assms by simp

text \<open>Where no operation rounds or overflows, the result is the value of the claim.\<close>

theorem RMSE_float_root_mean_square_witness:
  "length [Num 1, Num 5] = length [Num 2, Num 12]
   \<and> float_sum_sq xarith [Num 1, Num 5] [Num 2, Num 12] = Num 50
   \<and> float_count xarith (length [Num 1, Num 5]) = Num 2
   \<and> RMSE xarith [Num 1, Num 5] [Num 2, Num 12] = Inr (Num 5)
   \<and> claimed_rmse [1, 5] [2, 12] = 5"
proof -
  have s: "float_sum_sq xarith [Num 1, Num 5] [Num 2, Num 12] = Num 50"
    by (simp add: float_sum_sq_def arith_eval)
  have n: "float_count xarith (length [Num 1, Num 5]) = Num 2"
    by (simp add: float_count_def arith_eval eval_nat_numeral)
  have r: "sqrt 25 = 5" by (simp add: real_sqrt_unique)
  have "(\<Sum>i<length [1, 5 :: real]. ([1, 5] ! i - [2, 12 :: real] ! i)\<^sup>2) = 50"
    by (simp add: lessThan_Suc)
  then have c: "claimed_rmse [1, 5] [2, 12] = 5"
    by (simp add: claimed_rmse_def r)
  have "RMSE xarith [Num 1, Num 5] [Num 2, Num 12] = Inr (Num 5)"
    using RMSE_float_root_mean_square [of "[Num 1, Num 5]" "[Num 2, Num 12]" xarith]
    unfolding s n by (simp add: arith_eval r)
  with s n c show ?thesis by simp
qed

subsection \<open>C4: the contents of a batch\<close>

text \<open>
  C4. Every batch yielded by DataIter consists of \<open>batch_size\<close> consecutive records in
  the current order of the stored sequence: the batch number \<open>k\<close> holds the user ids,
  the item ids and the scores of the records \<open>k * batch_size\<close> to
  \<open>(k + 1) * batch_size - 1\<close>, which all exist, and its user, item and score sequences
  all have the length \<open>batch_size\<close>, which is also the shape its \<open>provide_data\<close> and
  \<open>provide_label\<close> report.
\<close>

theorem iter_batch_consecutive:
  assumes it: "DataIter_iter self = Inr bl" and k: "k < length bl"
  shows "data (bl ! k) = [map fst (slice self (int k)), map (fst \<circ> snd) (slice self (int k))]
       \<and> label (bl ! k) = [map (snd \<circ> snd) (slice self (int k))]
       \<and> slice self (int k)
           = map (\<lambda>i. records self ! (k * nat (batch_size self) + i)) [0..<nat (batch_size self)]
       \<and> (k + 1) * nat (batch_size self) \<le> length (records self)
       \<and> list_all (\<lambda>x. int (length x) = batch_size self) (data (bl ! k))
       \<and> list_all (\<lambda>x. int (length x) = batch_size self) (label (bl ! k))
       \<and> Batch_provide_data (bl ! k) = [(''user'', [batch_size self]), (''item'', [batch_size self])]
       \<and> Batch_provide_label (bl ! k) = [(''score'', [batch_size self])]"
proof -
  let ?b = "batch_size self" and ?xs = "records self"
  let ?n = "int (length ?xs)"
  have bs: "0 < ?b" by (rule iter_yields_only_for_positive [OF it k])
  have "bl = map (spec_batch self) (range (?n div ?b))"
    using DataIter_iter_spec [OF bs] it by simp
  with k have klt: "int k < ?n div ?b" and blk: "bl ! k = spec_batch self (int k)"
    by (simp_all add: range_def)
  have "int k \<in> set (range (?n div ?b))" using klt by (auto simp: range_def)
  from range_fits [OF bs this] have "(int k + 1) * ?b \<le> ?n" by simp
  moreover have "int ((k + 1) * nat ?b) = (int k + 1) * ?b" using bs by (simp add: algebra_simps)
  ultimately have "int ((k + 1) * nat ?b) \<le> ?n" by simp
  then have fit: "(k + 1) * nat ?b \<le> length ?xs" by linarith
  then have le: "k * nat ?b + nat ?b \<le> length ?xs" by (simp add: algebra_simps)
  have sl: "slice self (int k) = take (nat ?b) (drop (k * nat ?b) ?xs)"
    using bs by (simp add: slice_nat)
  have len: "length (slice self (int k)) = nat ?b" using le by (simp add: sl)
  have nth: "slice self (int k) = map (\<lambda>i. ?xs ! (k * nat ?b + i)) [0..<nat ?b]"
    using map_nth_range [OF le, of "\<lambda>x. x"] by (simp add: sl)
  show ?thesis
    using bs fit nth
    by (simp add: blk spec_batch_def len Batch_provide_data_def Batch_provide_label_def shape_def)
qed

text \<open>The second batch of the five records holds the third and the fourth.\<close>

theorem iter_batch_consecutive_witness:
  "DataIter_iter five_records = Inr two_batches \<and> 1 < length two_batches
   \<and> slice five_records 1 = [(3, 30, 3), (4, 40, 4)]
   \<and> data (two_batches ! 1) = [[3, 4], [30, 40]] \<and> label (two_batches ! 1) = [[3, 4]]
   \<and> list_all (\<lambda>x. int (length x) = 2) (data (two_batches ! 1) @ label (two_batches ! 1))
   \<and> Batch_provide_data (two_batches ! 1) = provide_data five_records
   \<and> Batch_provide_label (two_batches ! 1) = provide_label five_records"
proof -
  have run: "DataIter_iter five_records = Inr two_batches"
    by (simp add: DataIter_iter_def five_records_def two_batches_def list_eval)
  have k: "1 < length two_batches" by (simp add: two_batches_def)
  have sl: "slice five_records 1 = [(3, 30, 3), (4, 40, 4)]"
    by (simp add: slice_def five_records_def)
  have b: "batch_size five_records = 2"
    "provide_data five_records = [(''user'', [2]), (''item'', [2])]"
    "provide_label five_records = [(''score'', [2])]"
    by (simp_all add: five_records_def)
  from iter_batch_consecutive [OF run k] run k sl b
  show ?thesis by simp
qed

subsection \<open>C5: RMSE of a sequence with itself, and symmetry\<close>

text \<open>For the empty sequence RMSE(x, x) is not zero: the division raises. For a
  sequence that holds an infinity it is not zero either: infinity minus infinity is
  NaN, and so is the result.\<close>

theorem RMSE_self_counterexample:
  "RMSE xarith [] [] \<noteq> Inr (Num 0) \<and> RMSE xarith [PInf] [PInf] = Inr NaN"
  by (simp add: RMSE_def list_eval arith_eval)

text \<open>
  C5, amended. For any non-empty sequence x of finite floats (each \<open>x[i] - x[i]\<close> is
  \<open>0.0\<close>), RMSE(x, x) = 0.0; and for any two equal-length sequences a and b,
  RMSE(a, b) = RMSE(b, a), the same value or the same error (the squared difference is
  symmetric under swapping label and prediction). The float operations are taken to
  have the properties of IEEE arithmetic named \<open>zero_laws\<close> for the first half and
  \<open>sq_diff_symmetric\<close> for the second.
\<close>

theorem RMSE_zero_and_symmetric:
  "(zero_laws fl \<and> x \<noteq> [] \<and> (\<forall>a \<in> set x. f_sub fl a a = f_zero fl)
      \<longrightarrow> RMSE fl x x = Inr (f_zero fl))
 \<and> (sq_diff_symmetric fl \<and> length a = length b \<longrightarrow> RMSE fl a b = RMSE fl b a)"
proof (intro conjI impI)
  assume h: "zero_laws fl \<and> x \<noteq> [] \<and> (\<forall>a \<in> set x. f_sub fl a a = f_zero fl)"
  then have "float_sum_sq fl x x = f_zero fl"
    by (intro float_sum_sq_zero) (simp_all add: zero_laws_def)
  moreover have "f_div fl (f_zero fl) (float_count fl (length x)) = Inr (f_zero fl)"
    using h by (simp add: zero_laws_def)
  moreover have "f_sqrt fl (f_zero fl) = Inr (f_zero fl)"
    using h by (simp add: zero_laws_def)
  ultimately show "RMSE fl x x = Inr (f_zero fl)"
    by (simp add: RMSE_value)
next
  assume h: "sq_diff_symmetric fl \<and> length a = length b"
  then show "RMSE fl a b = RMSE fl b a"
    using float_sum_sq_swap [of fl a b] by (simp add: RMSE_value)
qed

theorem RMSE_zero_and_symmetric_witness:
  "zero_laws xarith \<and> sq_diff_symmetric xarith
   \<and> [Num 2, Num 7] \<noteq> [] \<and> list_all (\<lambda>a. f_sub xarith a a = f_zero xarith) [Num 2, Num 7]
   \<and> RMSE xarith [Num 2, Num 7] [Num 2, Num 7] = Inr (Num 0)
   \<and> length [Num 1, Num 5] = length [Num 2, Num 12]
   \<and> RMSE xarith [Num 1, Num 5] [Num 2, Num 12] = RMSE xarith [Num 2, Num 12] [Num 1, Num 5]"
proof -
  have fin: "\<forall>a \<in> set [Num 2, Num 7]. f_sub xarith a a = f_zero xarith"
    by (simp add: arith_eval)
  have z: "f_zero xarith = Num 0" by (simp add: xarith_def)
  from RMSE_zero_and_symmetric [of xarith "[Num 2, Num 7]" "[Num 1, Num 5]" "[Num 2, Num 12]"]
    xarith_zero_laws xarith_sq_diff_symmetric fin z
  show ?thesis by simp
qed

subsection \<open>C6: sequences of different lengths\<close>

text \<open>A prediction longer than the label: the loop only reads the first
  \<open>len(label)\<close> predictions, and RMSE returns a value.\<close>

theorem RMSE_longer_pred_counterexample:
  "length [Num 1] \<noteq> length [Num 1, Num 2] \<and> RMSE xarith [Num 1] [Num 1, Num 2] = Inr (Num 0)"
  by (simp add: RMSE_def list_eval arith_eval)

text \<open>
  C6, amended. For every pair of sequences (label, pred) with pred shorter than label,
  RMSE(label, pred) raises (an IndexError, from \<^verbatim>\<open>pred[i]\<close>) rather than returning a
  value; the source does not guard the length mismatch, and when pred is the longer
  one nothing fails on that account: RMSE(label, pred) is RMSE of label and the first
  \<open>len(label)\<close> elements of pred.
\<close>

theorem RMSE_length_mismatch:
  "(length pred < length lab \<longrightarrow> RMSE fl lab pred = Inl IndexError)
 \<and> (length lab < length pred \<longrightarrow> RMSE fl lab pred = RMSE fl lab (take (length lab) pred))"
proof (intro conjI impI)
  assume "length pred < length lab"
  then show "RMSE fl lab pred = Inl IndexError" by (rule RMSE_short_pred)
next
  assume lt: "length lab < length pred"
  then show "RMSE fl lab pred = RMSE fl lab (take (length lab) pred)"
    by (simp add: RMSE_value float_sum_sq_take)
qed

theorem RMSE_length_mismatch_witness:
  "length [Num 4] < length [Num 1, Num 5] \<and> RMSE xarith [Num 1, Num 5] [Num 4] = Inl IndexError
   \<and> RMSE xarith [Num 4] [Num 1, Num 5] = RMSE xarith [Num 4] [Num 1]
   \<and> RMSE xarith [Num 4] [Num 1] = Inr (Num 3)"
proof -
  have "RMSE xarith [Num 4] [Num 1] = Inr (Num 3)"
    by (simp add: RMSE_def list_eval arith_eval real_sqrt_unique)
  then show ?thesis
    using RMSE_length_mismatch [of "[Num 4]" "[Num 1, Num 5]" xarith]
      RMSE_length_mismatch [of "[Num 1, Num 5]" "[Num 4]" xarith]
    by simp
qed

subsection \<open>C7: a field that does not convert\<close>

text \<open>
  C7. For every input file with at least one line that splits into exactly four fields
  and whose user-id or item-id field is not a valid integer or whose rating field is
  not a valid float, the construction of the DataIter raises the parse fault
  (ValueError) and yields no DataIter: the line is not passed over the way a line with
  another number of fields is.
\<close>

theorem init_fails_on_malformed_field:
  assumes "line \<in> set lines" and "four_fields line"
    and "pyint (tokens line ! 0) = None \<or> pyint (tokens line ! 1) = None
           \<or> pyfloat (tokens line ! 2) = None"
  shows "DataIter_init pyint pyfloat lines bs = Inl ValueError"
proof -
  have "list_ex (parse_fault pyint pyfloat) lines"
    using assms by (auto simp: list_ex_iff parse_fault_def)
  then show ?thesis by (simp add: DataIter_init_def read_records_char)
qed

text \<open>A good line, the line \<open>bad\<close>, which alone would be passed over, and a line of
  four fields with the rating \<open>good\<close>.\<close>

theorem init_fails_on_malformed_field_witness:
  "tsv [''2'', ''3'', ''good'', ''0''] \<in> set bad_rating_file
   \<and> four_fields (tsv [''2'', ''3'', ''good'', ''0''])
   \<and> float_literal (tokens (tsv [''2'', ''3'', ''good'', ''0'']) ! 2) = None
   \<and> DataIter_init int_literal float_literal bad_rating_file 64 = Inl ValueError"
proof -
  have a: "tsv [''2'', ''3'', ''good'', ''0''] \<in> set bad_rating_file"
    by (simp add: bad_rating_file_def)
  have b: "four_fields (tsv [''2'', ''3'', ''good'', ''0''])"
    by (simp add: line_eval)
  have c: "float_literal (tokens (tsv [''2'', ''3'', ''good'', ''0'']) ! 2) = None"
    by (simp add: line_eval)
  from init_fails_on_malformed_field [of _ _ int_literal float_literal 64, OF a b] c a b
  show ?thesis by simp
qed

subsection \<open>C8: reset\<close>

text \<open>
  C8. For every DataIter state, reset reshuffles the stored record sequence in place:
  with a generator whose draws lie in the interval from 0 to 1 (1 excluded), reset
  returns, the record sequence after it is a permutation of the one before (the same
  multiset of records, the same count), and batch_size, provide_data and
  provide_label are unchanged.
\<close>

theorem reset_permutes_records_only:
  assumes rnd: "\<forall>g. 0 \<le> fst (random g) \<and> fst (random g) < 1"
  shows "\<exists>self' g'. DataIter_reset random self g = Inr (self', g')
          \<and> mset (records self') = mset (records self)
          \<and> length (records self') = length (records self)
          \<and> batch_size self' = batch_size self
          \<and> provide_data self' = provide_data self
          \<and> provide_label self' = provide_label self"
proof -
  have "\<exists>x' g'. shuffle_loop random (rev (map int [1..<length (records self)])) (records self, g)
            = Inr (x', g') \<and> mset x' = mset (records self) \<and> length x' = length (records self)"
    by (rule shuffle_loop_permutes [OF rnd]) auto
  then obtain x' g' where "shuffle random (records self) g = Inr (x', g')"
    "mset x' = mset (records self)" "length x' = length (records self)"
    by (auto simp: shuffle_def)
  then show ?thesis by (simp add: DataIter_reset_def)
qed

theorem reset_permutes_records_only_witness:
  "DataIter_reset half five_records 0 =
     Inr (five_records\<lparr>records := [(1, 10, 1), (4, 40, 4), (2, 20, 2), (5, 50, 5), (3, 30, 3)]\<rparr>, 4)
   \<and> (\<exists>self' g'. DataIter_reset half five_records 0 = Inr (self', g')
         \<and> mset (records self') = mset (records five_records)
         \<and> length (records self') = 5
         \<and> batch_size self' = 2
         \<and> provide_data self' = provide_data five_records
         \<and> provide_label self' = provide_label five_records)"
proof -
  have rnd: "\<forall>g. 0 \<le> fst (half g) \<and> fst (half g) < 1" by (simp add: half_def)
  have run: "DataIter_reset half five_records 0 =
     Inr (five_records\<lparr>records := [(1, 10, 1), (4, 40, 4), (2, 20, 2), (5, 50, 5), (3, 30, 3)]\<rparr>, 4)"
    by (simp add: DataIter_reset_def shuffle_def five_records_def half_def list_eval int_of_float_def)
  have "length (records five_records) = 5" "batch_size five_records = 2"
    by (simp_all add: five_records_def)
  with reset_permutes_records_only [OF rnd, of five_records 0] run show ?thesis by simp
qed

subsection \<open>C9: train and its batch_size argument\<close>

text \<open>
  C9. The behaviour of train is independent of its batch_size argument: for any two
  values of it, with the network, num_epoch and learning_rate (and the framework, the
  float arithmetic and the files) fixed, train performs the same computation, because
  the variable is set to 64 before the data iterators are built and the fit loop is
  called.
\<close>

theorem train_ignores_batch_size:
  "train mx fl fs pyint pyfloat network b1 num_epoch learning_rate =
   train mx fl fs pyint pyfloat network b2 num_epoch learning_rate"
  by (simp add: train_def)

subsection \<open>C10: max_id\<close>

text \<open>A file whose only line has the ids \<open>-3\<close> and \<open>-4\<close>: one more than the largest
  ids is \<open>(-2, -3)\<close>, and \<^verbatim>\<open>max_id\<close> returns \<open>(1, 1)\<close>, the maxima having started at
  \<open>0\<close>. A file whose only line has four fields and the user id \<open>a\<close>: \<^verbatim>\<open>max_id\<close>
  raises and returns no pair.\<close>

theorem max_id_counterexample:
  "claimed_max_id int_literal [tsv [''-3'', ''-4'', ''1.0'', ''0'']] = (- 2, - 3)
   \<and> max_id int_literal [tsv [''-3'', ''-4'', ''1.0'', ''0'']] = Inr (1, 1)
   \<and> four_fields (tsv [''a'', ''7'', ''1.0'', ''0''])
   \<and> max_id int_literal [tsv [''a'', ''7'', ''1.0'', ''0'']] = Inl ValueError"
  by (simp add: claimed_max_id_def user_ids_def item_ids_def max_id_def line_eval)

text \<open>
  C10, amended. For every input file in which the first two fields of each line that
  splits into exactly four tab-separated fields convert to integers, max_id returns the
  pair (1 + the maximum of 0 and the user ids, 1 + the maximum of 0 and the item ids),
  the ids taken over exactly the lines that split into exactly four fields and all
  other lines ignored; for a file with no such line it returns (1, 1), since both
  maxima start at 0.
\<close>

theorem max_id_maxima_from_zero:
  assumes "\<forall>line \<in> set lines. four_fields line \<longrightarrow>
             pyint (tokens line ! 0) \<noteq> None \<and> pyint (tokens line ! 1) \<noteq> None"
  shows "max_id pyint lines =
           Inr (1 + Max (insert 0 (user_ids pyint lines)), 1 + Max (insert 0 (item_ids pyint lines)))
       \<and> (filter four_fields lines = [] \<longrightarrow> max_id pyint lines = Inr (1, 1))"
proof -
  have "max_id_loop pyint lines (0, 0) =
     Inr (Max (insert 0 (user_ids pyint lines)), Max (insert 0 (item_ids pyint lines)))"
    using max_id_loop_fold [of lines pyint 0 0] assms
    by (simp add: fold_max_Max user_ids_def item_ids_def)
  then have eq: "max_id pyint lines =
     Inr (1 + Max (insert 0 (user_ids pyint lines)), 1 + Max (insert 0 (item_ids pyint lines)))"
    by (simp add: max_id_def)
  have "max_id pyint lines = Inr (1, 1)" if "filter four_fields lines = []"
    using that by (simp add: eq user_ids_def item_ids_def)
  with eq show ?thesis by blast
qed

text \<open>The rating \<open>zz\<close> of the first line does not matter to \<^verbatim>\<open>max_id\<close>, and the line
  \<open>bad\<close> is ignored.\<close>

theorem max_id_maxima_from_zero_witness:
  "max_id int_literal [tsv [''3'', ''7'', ''zz'', ''0''], ''bad'', tsv [''5'', ''2'', ''1.0'', ''0'']]
     = Inr (6, 8)
   \<and> filter four_fields [''bad'', ''''] = [] \<and> max_id int_literal [''bad'', ''''] = Inr (1, 1)"
proof -
  let ?f = "[tsv [''3'', ''7'', ''zz'', ''0''], ''bad'', tsv [''5'', ''2'', ''1.0'', ''0'']]"
  have ok: "\<forall>line \<in> set ?f. four_fields line \<longrightarrow>
      int_literal (tokens line ! 0) \<noteq> None \<and> int_literal (tokens line ! 1) \<noteq> None"
    by (simp add: line_eval)
  have ids: "user_ids int_literal ?f = {3, 5}" "item_ids int_literal ?f = {7, 2}"
    by (simp_all add: user_ids_def item_ids_def line_eval)
  have ok2: "\<forall>line \<in> set [''bad'', '''']. four_fields line \<longrightarrow>
      int_literal (tokens line ! 0) \<noteq> None \<and> int_literal (tokens line ! 1) \<noteq> None"
    by (simp add: line_eval)
  have none: "filter four_fields [''bad'', ''''] = []"
    by (simp add: line_eval)
  have large: "max_id int_literal ?f = Inr (6, 8)"
    using max_id_maxima_from_zero [OF ok] ids by simp
  have empty: "max_id int_literal [''bad'', ''''] = Inr (1, 1)"
    using max_id_maxima_from_zero [OF ok2] none by blast
  from large none empty show ?thesis by blast
qed

end
